theory Spec2Isabelle
  imports Main "HOL-Library.Word"
begin

section \<open>The WasteTrace contract (blockchain/contracts/WasteTrace.sol)\<close>

text \<open>
  Solidity's \<open>uint256\<close> and \<open>address\<close> are machine words of 256 and 160 bits.
  A \<open>string\<close> is a byte sequence. The contract is compiled with
  \<open>pragma solidity ^0.8.0\<close>, so \<open>count++\<close> is checked: on overflow the call
  panics (code 0x11) instead of wrapping.
\<close>

type_synonym uint256 = "256 word"
type_synonym address = "160 word"

text \<open>\<open>struct Waste\<close>. The field \<open>id\<close> is written \<open>id'\<close>.\<close>

record Waste =
  id' :: uint256
  wasteType :: string
  status :: string
  owner :: address
  timestamp :: uint256

text \<open>The three events of the contract.\<close>

datatype event =
    WasteCreated uint256 address
  | StatusUpdated uint256 string
  | WasteTransferred uint256 address address

text \<open>
  A failed \<open>require(c, msg)\<close> reverts with \<open>msg\<close>; checked arithmetic panics
  with a code.
\<close>

datatype error = Require string | Panic nat

text \<open>
  The contract's storage: the mapping \<open>wastes\<close> (every key holds a value, the
  all-zero struct until it is written) and \<open>count\<close>. \<open>emitted\<close> is the log of
  the events emitted so far, oldest first.
\<close>

record WasteTrace =
  wastes :: "uint256 \<Rightarrow> Waste"
  count :: uint256
  emitted :: "event list"

definition zero_Waste :: Waste where
  "zero_Waste = \<lparr>id' = 0, wasteType = [], status = [], owner = 0, timestamp = 0\<rparr>"

text \<open>The state of a freshly deployed contract.\<close>

definition deployed :: WasteTrace where
  "deployed = \<lparr>wastes = (\<lambda>_. zero_Waste), count = 0, emitted = []\<rparr>"

text \<open>
  Every function takes \<open>msg.sender\<close> (and \<open>block.timestamp\<close> where it reads it)
  as explicit arguments and returns either the error it reverts with or the
  new state.
\<close>

definition createWaste :: "address \<Rightarrow> uint256 \<Rightarrow> string \<Rightarrow> WasteTrace \<Rightarrow> error + WasteTrace" where
  "createWaste msg_sender block_timestamp type' s =
     (if count s = - 1 then Inl (Panic 17)
      else
        let c = count s + 1 in
        Inr (s\<lparr>count := c,
               wastes := (wastes s)(c := \<lparr>id' = c, wasteType = type', status = ''Generated'',
                                         owner = msg_sender, timestamp = block_timestamp\<rparr>),
               emitted := emitted s @ [WasteCreated c msg_sender]\<rparr>))"

definition updateStatus :: "address \<Rightarrow> uint256 \<Rightarrow> string \<Rightarrow> WasteTrace \<Rightarrow> error + WasteTrace" where
  "updateStatus msg_sender wid status' s =
     (if \<not> id' (wastes s wid) \<noteq> 0 then Inl (Require ''Waste not found'')
      else if \<not> owner (wastes s wid) = msg_sender then Inl (Require ''Not owner'')
      else
        Inr (s\<lparr>wastes := (wastes s)(wid := (wastes s wid)\<lparr>status := status'\<rparr>),
               emitted := emitted s @ [StatusUpdated wid status']\<rparr>))"

definition transferWaste :: "address \<Rightarrow> uint256 \<Rightarrow> address \<Rightarrow> WasteTrace \<Rightarrow> error + WasteTrace" where
  "transferWaste msg_sender wid to s =
     (if \<not> owner (wastes s wid) = msg_sender then Inl (Require ''Not owner'')
      else
        Inr (s\<lparr>wastes := (wastes s)(wid := (wastes s wid)\<lparr>owner := to\<rparr>),
               emitted := emitted s @ [WasteTransferred wid msg_sender to]\<rparr>))"

text \<open>\<open>getWaste\<close> is a view: it returns the stored struct and never reverts.\<close>

definition getWaste :: "uint256 \<Rightarrow> WasteTrace \<Rightarrow> Waste" where
  "getWaste wid s = wastes s wid"

subsection \<open>Transactions\<close>

text \<open>
  A transaction is a call of one of the three public mutating functions by
  some sender at some block time. A transaction that reverts leaves storage
  and log as they were.
\<close>

datatype call =
    CreateWaste string
  | UpdateStatus uint256 string
  | TransferWaste uint256 address

record tx =
  tx_sender :: address
  tx_time :: uint256
  tx_call :: call

fun exec :: "tx \<Rightarrow> WasteTrace \<Rightarrow> error + WasteTrace" where
  "exec t s =
     (case tx_call t of
        CreateWaste type' \<Rightarrow> createWaste (tx_sender t) (tx_time t) type' s
      | UpdateStatus wid status' \<Rightarrow> updateStatus (tx_sender t) wid status' s
      | TransferWaste wid to \<Rightarrow> transferWaste (tx_sender t) wid to s)"

definition transact :: "tx \<Rightarrow> WasteTrace \<Rightarrow> WasteTrace" where
  "transact t s = (case exec t s of Inl e \<Rightarrow> s | Inr s' \<Rightarrow> s')"

fun run :: "tx list \<Rightarrow> WasteTrace \<Rightarrow> WasteTrace" where
  "run [] s = s"
| "run (t # ts) s = run ts (transact t s)"

subsection \<open>Notions used to state the properties\<close>

text \<open>
  The contract's own existence test, from the first \<open>require\<close> of
  \<open>updateStatus\<close>: \<open>wastes[_id].id != 0\<close>.
\<close>

definition record_exists :: "WasteTrace \<Rightarrow> uint256 \<Rightarrow> bool" where
  "record_exists s wid = (id' (wastes s wid) \<noteq> 0)"

text \<open>
  The read operation in the specification's terms. \<open>getWaste\<close> itself never
  fails; the absence of a record is signalled by the sentinel id 0 in the
  struct it returns. \<open>get\<close> decodes that: \<open>None\<close> stands for "not found"
  when the id is 0 or no record exists for it.
\<close>

definition get :: "uint256 \<Rightarrow> WasteTrace \<Rightarrow> Waste option" where
  "get wid s = (if wid = 0 \<or> \<not> record_exists s wid then None else Some (getWaste wid s))"

text \<open>The id stored under every key: the key itself from 1 up to \<open>count\<close>, 0 elsewhere.\<close>

definition ids_ok :: "WasteTrace \<Rightarrow> bool" where
  "ids_ok s = (\<forall>k. id' (wastes s k) = (if k \<noteq> 0 \<and> k \<le> count s then k else 0))"

text \<open>Every key outside 1..\<open>count\<close> still holds the all-zero struct.\<close>

definition zero_outside :: "WasteTrace \<Rightarrow> bool" where
  "zero_outside s = (\<forall>k. \<not> (k \<noteq> 0 \<and> k \<le> count s) \<longrightarrow> wastes s k = zero_Waste)"

text \<open>The ids assigned so far, read off the \<open>WasteCreated\<close> events in order of emission.\<close>

fun created_ids :: "event list \<Rightarrow> uint256 list" where
  "created_ids [] = []"
| "created_ids (WasteCreated i a # es) = i # created_ids es"
| "created_ids (e # es) = created_ids es"

text \<open>A transaction that is a successful creation, and their number in a sequence.\<close>

definition created :: "tx \<Rightarrow> WasteTrace \<Rightarrow> bool" where
  "created t s =
     (case tx_call t of
        CreateWaste type' \<Rightarrow> (case exec t s of Inl e \<Rightarrow> False | Inr s' \<Rightarrow> True)
      | UpdateStatus wid status' \<Rightarrow> False
      | TransferWaste wid to \<Rightarrow> False)"

fun n_created :: "tx list \<Rightarrow> WasteTrace \<Rightarrow> nat" where
  "n_created [] s = 0"
| "n_created (t # ts) s = (if created t s then 1 else 0) + n_created ts (transact t s)"

text \<open>
  The change notification that corresponds to a mutation submitted in state
  \<open>s\<close>: its kind, the id of the record it concerns (for a creation, the id
  being allocated) and its payload.
\<close>

definition notification :: "tx \<Rightarrow> WasteTrace \<Rightarrow> event" where
  "notification t s =
     (case tx_call t of
        CreateWaste type' \<Rightarrow> WasteCreated (count s + 1) (tx_sender t)
      | UpdateStatus wid status' \<Rightarrow> StatusUpdated wid status'
      | TransferWaste wid to \<Rightarrow> WasteTransferred wid (tx_sender t) to)"

text \<open>The notifications of the accepted mutations of a sequence, in order of acceptance.\<close>

fun notifications :: "tx list \<Rightarrow> WasteTrace \<Rightarrow> event list" where
  "notifications [] s = []"
| "notifications (t # ts) s =
     (case exec t s of
        Inl e \<Rightarrow> notifications ts s
      | Inr s' \<Rightarrow> notification t s # notifications ts s')"

text \<open>The fields of a record that no function assigns after creation.\<close>

definition fixed_fields :: "Waste \<Rightarrow> uint256 \<times> string \<times> uint256" where
  "fixed_fields w = (id' w, wasteType w, timestamp w)"

section \<open>The client (frontend/src/context/Web3Context.jsx, components/Dashboard.jsx)\<close>

text \<open>
  The state of \<open>Web3Provider\<close> that \<open>createWaste\<close> depends on:
  \<open>currentAccount\<close> (initially the empty string) and \<open>contract\<close> (initially
  \<open>null\<close>, here \<open>None\<close>; otherwise the contract handle, which sends every call
  from its signer's address).
\<close>

record Web3 =
  currentAccount :: string
  contract :: "address option"

definition Web3_initial :: Web3 where
  "Web3_initial = \<lparr>currentAccount = [], contract = None\<rparr>"

text \<open>
  \<open>handleAccountsChanged\<close>: with a non-empty list the first account becomes
  current; with the empty list both the account and the contract handle are
  cleared.
\<close>

definition handleAccountsChanged :: "string list \<Rightarrow> Web3 \<Rightarrow> Web3" where
  "handleAccountsChanged accounts ctx =
     (if length accounts > 0 then ctx\<lparr>currentAccount := accounts ! 0\<rparr>
      else ctx\<lparr>currentAccount := [], contract := None\<rparr>)"

text \<open>
  The outcome of an \<open>async\<close> function: the value its promise resolves to, or
  the error it rejects with.
\<close>

datatype 'a js_result = Returned 'a | is_Thrown: Thrown error

text \<open>
  \<open>createWaste\<close> of the context. \<open>if (!contract) return;\<close> resolves to
  \<open>undefined\<close> (here \<open>Returned None\<close>) without calling the contract. Otherwise
  the transaction is sent and awaited: a revert is caught, logged and
  rethrown, a success returns the transaction.
\<close>

definition createWaste_Web3 ::
  "Web3 \<Rightarrow> uint256 \<Rightarrow> string \<Rightarrow> WasteTrace \<Rightarrow> tx option js_result \<times> WasteTrace" where
  "createWaste_Web3 ctx now wasteType' s =
     (case contract ctx of
        None \<Rightarrow> (Returned None, s)
      | Some signer \<Rightarrow>
          let t = \<lparr>tx_sender = signer, tx_time = now, tx_call = CreateWaste wasteType'\<rparr> in
          (case exec t s of
             Inl e \<Rightarrow> (Thrown e, s)
           | Inr s' \<Rightarrow> (Returned (Some t), s')))"

text \<open>
  A detection event as it arrives in a WebSocket message: the JSON fields
  \<open>event_type\<close> and \<open>class_name\<close> (\<open>None\<close> when the field is missing) and
  \<open>timestamp\<close>. A message carries \<open>type\<close> and \<open>events\<close>.
\<close>

record DetectionEvent =
  event_type :: "string option"
  class_name :: "string option"
  timestamp_ev :: string

record Message =
  type_msg :: "string option"
  events :: "DetectionEvent list option"

text \<open>
  The handlers return the list of \<open>createWaste\<close> calls they issue, each given
  by its argument, in the order of the calls.
  \<open>handleAutoCreateWaste\<close> starts with \<open>if (!currentAccount) return;\<close>.
\<close>

definition handleAutoCreateWaste :: "string \<Rightarrow> string \<Rightarrow> string list" where
  "handleAutoCreateWaste account wasteType' = (if account = [] then [] else [wasteType'])"

text \<open>
  The body of \<open>newEvents.forEach\<close>. In
  \<open>e.class_name || "Unknown Waste"\<close> the empty string is falsy as well.
\<close>

definition autoLog_event :: "string \<Rightarrow> DetectionEvent \<Rightarrow> string list" where
  "autoLog_event account e =
     (if event_type e = Some ''waste_detected'' \<or> event_type e = Some ''waste_classified'' then
        let wasteType' =
          (case class_name e of
             None \<Rightarrow> ''Unknown Waste''
           | Some c \<Rightarrow> if c = [] then ''Unknown Waste'' else c)
        in handleAutoCreateWaste account wasteType'
      else [])"

text \<open>
  The state of the \<open>Dashboard\<close> component that the handler reads and writes:
  \<open>autoLog\<close>, from \<open>useState(false)\<close>, and \<open>logs\<close>, from \<open>useState([])\<close>.
  The component has \<open>setAutoLog\<close> in scope but calls it nowhere, so no
  transition of the component changes \<open>autoLog\<close>.
\<close>

record Dashboard =
  autoLog :: bool
  logs :: "DetectionEvent list"

definition Dashboard_initial :: Dashboard where
  "Dashboard_initial = \<lparr>autoLog = False, logs = []\<rparr>"

text \<open>
  \<open>ws.onmessage\<close> on the parsed message. The handler is installed anew
  whenever \<open>autoLog\<close> or \<open>currentAccount\<close> changes, so it reads their current
  values; \<open>now\<close> is the time stamp it puts on the events. It returns the
  component's state with the new \<open>logs\<close> (the newest 50 entries) and the
  \<open>createWaste\<close> calls issued.
\<close>

definition onmessage ::
  "string \<Rightarrow> string \<Rightarrow> Message \<Rightarrow> Dashboard \<Rightarrow> Dashboard \<times> string list" where
  "onmessage account now data d =
     (case events data of
        None \<Rightarrow> (d, [])
      | Some es \<Rightarrow>
          if type_msg data = Some ''event'' then
            let newEvents = map (\<lambda>e. e\<lparr>timestamp_ev := now\<rparr>) es in
            (d\<lparr>logs := take 50 (newEvents @ logs d)\<rparr>,
             if autoLog d then concat (map (autoLog_event account) newEvents) else [])
          else (d, []))"

text \<open>
  The component over a sequence of messages, each with the account bound and
  the time at its arrival: the final state and all calls issued, in order.
\<close>

fun receive_all :: "(string \<times> string \<times> Message) list \<Rightarrow> Dashboard \<Rightarrow> Dashboard \<times> string list" where
  "receive_all [] d = (d, [])"
| "receive_all ((account, now, data) # ms) d =
     (let (d', calls) = onmessage account now data d;
          (d'', calls') = receive_all ms d'
      in (d'', calls @ calls'))"

text \<open>The notions used to state what the auto-log does with an event.\<close>

definition recognized :: "DetectionEvent \<Rightarrow> bool" where
  "recognized e = (event_type e = Some ''waste_detected'' \<or> event_type e = Some ''waste_classified'')"

definition itemType_of :: "DetectionEvent \<Rightarrow> string" where
  "itemType_of e =
     (case class_name e of
        None \<Rightarrow> ''Unknown Waste''
      | Some c \<Rightarrow> if c = [] then ''Unknown Waste'' else c)"

definition event_message :: "DetectionEvent list \<Rightarrow> Message" where
  "event_message es = \<lparr>type_msg = Some ''event'', events = Some es\<rparr>"

subsection \<open>Concrete runs used as test inputs\<close>

definition two_creates :: "tx list" where
  "two_creates =
     [\<lparr>tx_sender = 10, tx_time = 100, tx_call = CreateWaste ''Plastic''\<rparr>,
      \<lparr>tx_sender = 11, tx_time = 101, tx_call = CreateWaste ''E-Waste''\<rparr>]"

definition mixed_txs :: "tx list" where
  "mixed_txs =
     [\<lparr>tx_sender = 10, tx_time = 100, tx_call = CreateWaste ''Plastic''\<rparr>,
      \<lparr>tx_sender = 11, tx_time = 101, tx_call = UpdateStatus 1 ''Collected''\<rparr>,
      \<lparr>tx_sender = 10, tx_time = 102, tx_call = UpdateStatus 1 ''Collected''\<rparr>,
      \<lparr>tx_sender = 10, tx_time = 103, tx_call = TransferWaste 1 11\<rparr>,
      \<lparr>tx_sender = 10, tx_time = 104, tx_call = UpdateStatus 1 ''Recycled''\<rparr>]"

definition one_record :: WasteTrace where
  "one_record = run [\<lparr>tx_sender = 10, tx_time = 100, tx_call = CreateWaste ''E-Waste''\<rparr>] deployed"

definition later_txs :: "tx list" where
  "later_txs =
     [\<lparr>tx_sender = 10, tx_time = 200, tx_call = UpdateStatus 1 ''Collected''\<rparr>,
      \<lparr>tx_sender = 10, tx_time = 201, tx_call = TransferWaste 1 11\<rparr>,
      \<lparr>tx_sender = 12, tx_time = 202, tx_call = CreateWaste ''Glass''\<rparr>,
      \<lparr>tx_sender = 11, tx_time = 203, tx_call = UpdateStatus 1 ''Recycled''\<rparr>]"

definition first_tx :: "tx list" where
  "first_tx = [\<lparr>tx_sender = 10, tx_time = 100, tx_call = CreateWaste ''E-Waste''\<rparr>]"

definition zero_sender_transfer :: "tx list" where
  "zero_sender_transfer = [\<lparr>tx_sender = 0, tx_time = 100, tx_call = TransferWaste 5 11\<rparr>]"

definition bottle :: DetectionEvent where
  "bottle = \<lparr>event_type = Some ''waste_detected'', class_name = Some ''Bottle'', timestamp_ev = ''t0''\<rparr>"

definition connected :: Web3 where
  "connected = \<lparr>currentAccount = ''0xA1'', contract = Some 10\<rparr>"

lemmas eval_defs = transact_def createWaste_def updateStatus_def transferWaste_def
  deployed_def zero_Waste_def Let_def notification_def

section \<open>Word arithmetic and the id invariant\<close>

text \<open>
  \<open>createWaste\<close> only runs past \<open>count++\<close> when the counter is not at its
  maximum, so the successor never wraps. The invariant \<open>ids_ok\<close> holds after
  deployment and is kept by every transaction.
\<close>

lemma succ_neq_0:
  fixes c :: "'a::len word"
  shows "c \<noteq> - 1 \<Longrightarrow> c + 1 \<noteq> 0"
  by (metis eq_neg_iff_add_eq_0)

lemma unat_succ:
  fixes c :: "'a::len word"
  shows "c \<noteq> - 1 \<Longrightarrow> unat (c + 1) = Suc (unat c)"
  using unatSuc [of c] succ_neq_0 [of c] by (simp add: add.commute)

lemma le_succ_iff:
  fixes c :: "'a::len word"
  assumes "c \<noteq> - 1"
  shows "k \<le> c + 1 \<longleftrightarrow> k \<le> c \<or> k = c + 1"
proof -
  have "unat k \<le> Suc (unat c) \<longleftrightarrow> unat k \<le> unat c \<or> unat k = Suc (unat c)"
    by arith
  then show ?thesis
    using unat_succ [OF assms] by (metis word_le_nat_alt word_unat_eq_iff)
qed

lemma ids_ok_deployed: "ids_ok deployed"
  by (simp add: ids_ok_def deployed_def zero_Waste_def)

lemma ids_ok_createWaste:
  assumes "ids_ok s" and "createWaste m t ty s = Inr s'"
  shows "ids_ok s'"
proof -
  from assms(2) have c: "count s \<noteq> - 1"
    by (auto simp: createWaste_def split: if_splits)
  have s': "s' = s\<lparr>count := count s + 1,
               wastes := (wastes s)(count s + 1 := \<lparr>id' = count s + 1, wasteType = ty, status = ''Generated'',
                                         owner = m, timestamp = t\<rparr>),
               emitted := emitted s @ [WasteCreated (count s + 1) m]\<rparr>"
    using assms(2) c by (simp add: createWaste_def Let_def)
  show ?thesis
    unfolding ids_ok_def
  proof
    fix k
    show "id' (wastes s' k) = (if k \<noteq> 0 \<and> k \<le> count s' then k else 0)"
    proof (cases "k = count s + 1")
      case True
      then show ?thesis using succ_neq_0 [OF c] by (simp add: s')
    next
      case False
      then show ?thesis
        using assms(1) le_succ_iff [OF c, of k] by (simp add: s' ids_ok_def)
    qed
  qed
qed

lemma ids_ok_updateStatus:
  "ids_ok s \<Longrightarrow> updateStatus m wid st s = Inr s' \<Longrightarrow> ids_ok s'"
  by (auto simp: updateStatus_def ids_ok_def split: if_splits)

lemma ids_ok_transferWaste:
  "ids_ok s \<Longrightarrow> transferWaste m wid to s = Inr s' \<Longrightarrow> ids_ok s'"
  by (auto simp: transferWaste_def ids_ok_def split: if_splits)

lemma ids_ok_transact: "ids_ok s \<Longrightarrow> ids_ok (transact t s)"
  by (auto simp: transact_def split: sum.splits call.splits
      dest: ids_ok_createWaste ids_ok_updateStatus ids_ok_transferWaste)

lemma ids_ok_run: "ids_ok s \<Longrightarrow> ids_ok (run ts s)"
  by (induction ts arbitrary: s) (simp_all add: ids_ok_transact)

section \<open>The counter and the assigned ids\<close>

lemma created_ids_append: "created_ids (xs @ ys) = created_ids xs @ created_ids ys"
  by (induction xs rule: created_ids.induct) simp_all

lemma transact_count:
  "unat (count (transact t s)) = unat (count s) + (if created t s then 1 else 0)"
  by (auto simp: transact_def created_def createWaste_def updateStatus_def transferWaste_def
      Let_def unat_succ split: call.splits sum.splits if_splits)

lemma transact_created_ids:
  "created_ids (emitted (transact t s)) =
     created_ids (emitted s) @ (if created t s then [count s + 1] else [])"
  by (auto simp: transact_def created_def createWaste_def updateStatus_def transferWaste_def
      Let_def created_ids_append split: call.splits sum.splits if_splits)

lemma transact_count_word:
  "count (transact t s) = (if created t s then count s + 1 else count s)"
  by (auto simp: transact_def created_def createWaste_def updateStatus_def transferWaste_def
      Let_def split: call.splits sum.splits if_splits)

lemma run_count: "unat (count (run ts s)) = unat (count s) + n_created ts s"
  by (induction ts arbitrary: s) (simp_all add: transact_count)

lemma run_created_ids:
  "created_ids (emitted (run ts s)) =
     created_ids (emitted s) @
     map of_nat [Suc (unat (count s)) ..< Suc (unat (count s) + n_created ts s)]"
proof (induction ts arbitrary: s)
  case Nil
  then show ?case by simp
next
  case (Cons t ts)
  show ?case
  proof (cases "created t s")
    case True
    have "[Suc (unat (count s)) ..< Suc (unat (count s) + (1 + n_created ts (transact t s)))] =
          Suc (unat (count s)) # [Suc (Suc (unat (count s))) ..< Suc (Suc (unat (count s)) + n_created ts (transact t s))]"
      by (simp add: upt_conv_Cons)
    moreover have "(of_nat (Suc (unat (count s))) :: uint256) = count s + 1"
      by simp
    ultimately show ?thesis
      using True Cons.IH [of "transact t s"]
      by (simp add: transact_count transact_created_ids del: upt_Suc of_nat_Suc)
  next
    case False
    then show ?thesis
      using Cons.IH [of "transact t s"]
      by (simp add: transact_count transact_created_ids del: upt_Suc)
  qed
qed

lemma sorted_of_nat_upt:
  assumes "n < 2 ^ LENGTH('a::len)"
  shows "sorted_wrt (<) (map (of_nat :: nat \<Rightarrow> 'a word) [m ..< Suc n])"
proof -
  have lt: "(of_nat i :: 'a word) < of_nat j"
    if "i \<in> set [m ..< Suc n]" "j \<in> set [m ..< Suc n]" "i < j" for i j
  proof -
    from that assms have "i < 2 ^ LENGTH('a)" "j < 2 ^ LENGTH('a)"
      by auto
    then show ?thesis
      using \<open>i < j\<close> by (simp add: word_less_nat_alt unat_of_nat)
  qed
  have "sorted_wrt (<) [m ..< Suc n]"
    by (rule sorted_wrt_upt)
  then have "sorted_wrt (\<lambda>i j. (of_nat i :: 'a word) < of_nat j) [m ..< Suc n]"
    by (rule sorted_wrt_mono_rel [rotated]) (rule lt)
  then show ?thesis
    by (simp only: sorted_wrt_map)
qed

lemma ids_ok_reachable: "ids_ok (run ts deployed)"
  by (simp add: ids_ok_run ids_ok_deployed)

lemma n_created_bound: "n_created ts deployed < 2 ^ 256"
proof -
  have "unat (count (run ts deployed)) < 2 ^ LENGTH(256)"
    by (rule unsigned_less)
  then show ?thesis
    by (simp add: run_count deployed_def)
qed

lemma created_ids_reachable:
  "created_ids (emitted (run ts deployed)) = map of_nat [1 ..< Suc (n_created ts deployed)]"
  using run_created_ids [of ts deployed] by (simp add: deployed_def del: upt_Suc)

text \<open>
  C3. Starting from the freshly deployed contract, after any sequence of
  transactions the ids assigned so far are exactly 1, 2, ..., n in the order
  of submission, where n is the number of successful creations: the list is
  strictly increasing, so there is no gap and no reuse. In particular, when
  every transaction of the sequence is a successful creation, the ids are
  1, ..., length of the sequence. The counter equals n: one transaction moves
  it up by exactly one when it is a successful creation and leaves it as it
  is otherwise.
\<close>

theorem created_ids_sequential:
  "created_ids (emitted (run ts deployed)) = map of_nat [1 ..< Suc (n_created ts deployed)] \<and>
   (n_created ts deployed = length ts \<longrightarrow>
      created_ids (emitted (run ts deployed)) = map of_nat [1 ..< Suc (length ts)]) \<and>
   sorted_wrt (<) (created_ids (emitted (run ts deployed))) \<and>
   distinct (created_ids (emitted (run ts deployed))) \<and>
   unat (count (run ts deployed)) = n_created ts deployed \<and>
   count (transact t s) = (if created t s then count s + 1 else count s) \<and>
   unat (count (transact t s)) = unat (count s) + (if created t s then 1 else 0)"
proof -
  have ids: "created_ids (emitted (run ts deployed)) = map of_nat [1 ..< Suc (n_created ts deployed)]"
    by (rule created_ids_reachable)
  have srt: "sorted_wrt (<) (created_ids (emitted (run ts deployed)))"
    unfolding ids using n_created_bound [of ts] by (intro sorted_of_nat_upt) simp
  have dst: "distinct (created_ids (emitted (run ts deployed)))"
    using srt strict_sorted_iff by blast
  have cnt: "unat (count (run ts deployed)) = n_created ts deployed"
    by (simp add: run_count deployed_def)
  show ?thesis
    using ids srt dst cnt transact_count_word [of t s] transact_count [of t s] by simp
qed

theorem created_ids_sequential_witness:
  "n_created two_creates deployed = length two_creates \<and>
   created_ids (emitted (run two_creates deployed)) = [1, 2] \<and>
   count (run two_creates deployed) = 2"
  using created_ids_sequential [of two_creates]
  by (simp add: two_creates_def transact_def created_def createWaste_def deployed_def Let_def)

section \<open>Creation\<close>

text \<open>
  C4. For every item type and creator, \<open>createWaste\<close> (while the counter has
  not reached its maximum) succeeds, allocates the next id \<open>count + 1\<close> and
  stores under it a record with that id, the given type, status "Generated",
  the caller as owner and the block time as creation time; all other keys are
  untouched. In particular, creating "Plastic" on the freshly deployed contract
  and reading id 1 gives type "Plastic" and status "Generated".
\<close>

theorem createWaste_stores_record:
  "(count s \<noteq> - 1 \<longrightarrow>
      (\<exists>s'. createWaste creator now type' s = Inr s' \<and>
            count s' = count s + 1 \<and>
            getWaste (count s + 1) s' =
              \<lparr>id' = count s + 1, wasteType = type', status = ''Generated'',
               owner = creator, timestamp = now\<rparr> \<and>
            (\<forall>k. k \<noteq> count s + 1 \<longrightarrow> getWaste k s' = getWaste k s))) \<and>
   (\<exists>s1. createWaste creator now ''Plastic'' deployed = Inr s1 \<and>
         wasteType (getWaste 1 s1) = ''Plastic'' \<and>
         status (getWaste 1 s1) = ''Generated'')"
  by (simp add: createWaste_def getWaste_def deployed_def Let_def)

theorem createWaste_stores_record_witness:
  "count deployed \<noteq> - 1 \<and>
   (\<exists>s'. createWaste 7 1000 ''Glass'' deployed = Inr s' \<and> count s' = 1 \<and>
         getWaste 1 s' = \<lparr>id' = 1, wasteType = ''Glass'', status = ''Generated'',
                          owner = 7, timestamp = 1000\<rparr> \<and>
         getWaste 2 s' = getWaste 2 deployed)"
  using createWaste_stores_record [of deployed 7 1000 "''Glass''"]
  by (simp add: deployed_def createWaste_def getWaste_def Let_def)

section \<open>Notifications\<close>

lemma exec_emitted:
  "exec t s = Inr s' \<Longrightarrow> emitted s' = emitted s @ [notification t s]"
  by (auto simp: notification_def createWaste_def updateStatus_def transferWaste_def Let_def
      split: call.splits if_splits)

lemma run_emitted: "emitted (run ts s) = emitted s @ notifications ts s"
proof (induction ts arbitrary: s)
  case Nil
  then show ?case by simp
next
  case (Cons t ts)
  show ?case
  proof (cases "exec t s")
    case (Inl e)
    then have "transact t s = s"
      by (simp add: transact_def)
    with Inl Cons.IH [of s] show ?thesis
      by simp
  next
    case (Inr s')
    then have "transact t s = s'"
      by (simp add: transact_def)
    with Inr Cons.IH [of s'] exec_emitted [OF Inr] show ?thesis
      by simp
  qed
qed

text \<open>
  C8. An accepted mutation (creation, status change or transfer) appends
  exactly one event to the log, the notification that corresponds to it
  (\<open>WasteCreated\<close> with the new id and the creator, \<open>StatusUpdated\<close> with the
  id and the new status, \<open>WasteTransferred\<close> with the id, the sender and the
  new owner); a rejected mutation appends nothing. Over a sequence of
  transactions the log therefore grows by the notifications of the accepted
  ones, in the order in which they were accepted.
\<close>

theorem one_notification_per_accepted_mutation:
  "(exec t s = Inr s' \<longrightarrow> emitted s' = emitted s @ [notification t s]) \<and>
   (exec t s = Inl e \<longrightarrow> emitted (transact t s) = emitted s) \<and>
   emitted (run ts s) = emitted s @ notifications ts s \<and>
   emitted (run ts deployed) = notifications ts deployed"
  using exec_emitted [of t s s'] run_emitted [of ts s] run_emitted [of ts deployed]
  by (simp add: transact_def deployed_def)

theorem one_notification_per_accepted_mutation_witness:
  "exec \<lparr>tx_sender = 10, tx_time = 100, tx_call = CreateWaste ''Plastic''\<rparr> deployed =
     Inr (run [\<lparr>tx_sender = 10, tx_time = 100, tx_call = CreateWaste ''Plastic''\<rparr>] deployed) \<and>
   exec \<lparr>tx_sender = 11, tx_time = 101, tx_call = UpdateStatus 1 ''Collected''\<rparr> deployed =
     Inl (Require ''Waste not found'') \<and>
   emitted (run mixed_txs deployed) =
     [WasteCreated 1 10, StatusUpdated 1 ''Collected'', WasteTransferred 1 10 11]"
  using one_notification_per_accepted_mutation [of
      "\<lparr>tx_sender = 10, tx_time = 100, tx_call = CreateWaste ''Plastic''\<rparr>" deployed
      "run [\<lparr>tx_sender = 10, tx_time = 100, tx_call = CreateWaste ''Plastic''\<rparr>] deployed"
      "Require ''Waste not found''" mixed_txs]
  by (simp add: mixed_txs_def eval_defs)

section \<open>Authorization\<close>

lemma updateStatus_Inr:
  assumes "updateStatus m wid st s = Inr s'"
  shows "record_exists s wid" and "owner (wastes s wid) = m"
    and "s' = s\<lparr>wastes := (wastes s)(wid := (wastes s wid)\<lparr>status := st\<rparr>),
                   emitted := emitted s @ [StatusUpdated wid st]\<rparr>"
  using assms by (auto simp: updateStatus_def record_exists_def split: if_splits)

lemma transferWaste_Inr:
  assumes "transferWaste m wid to s = Inr s'"
  shows "owner (wastes s wid) = m"
    and "s' = s\<lparr>wastes := (wastes s)(wid := (wastes s wid)\<lparr>owner := to\<rparr>),
                   emitted := emitted s @ [WasteTransferred wid m to]\<rparr>"
  using assms by (auto simp: transferWaste_def split: if_splits)

text \<open>
  C2. For an existing record and a caller who is not its current owner,
  \<open>updateStatus\<close> and \<open>transferWaste\<close> both revert with "Not owner" and the
  transaction leaves the whole state, hence the record, unchanged. After a
  successful transfer of an existing record from caller A to another identity
  B, the owner is B, and a status update by A reverts with "Not owner" and
  changes nothing: the check reads the owner stored now, not the creator.
\<close>

theorem non_owner_is_rejected:
  "(record_exists s wid \<and> caller \<noteq> owner (wastes s wid) \<longrightarrow>
      updateStatus caller wid status' s = Inl (Require ''Not owner'') \<and>
      transferWaste caller wid to s = Inl (Require ''Not owner'') \<and>
      transact \<lparr>tx_sender = caller, tx_time = now, tx_call = UpdateStatus wid status'\<rparr> s = s \<and>
      transact \<lparr>tx_sender = caller, tx_time = now, tx_call = TransferWaste wid to\<rparr> s = s) \<and>
   (record_exists s wid \<and> transferWaste callerA wid B s = Inr s' \<and> callerA \<noteq> B \<longrightarrow>
      owner (wastes s' wid) = B \<and>
      updateStatus callerA wid status' s' = Inl (Require ''Not owner'') \<and>
      transact \<lparr>tx_sender = callerA, tx_time = now, tx_call = UpdateStatus wid status'\<rparr> s' = s')"
proof -
  have rejected: "updateStatus c wid st x = Inl (Require ''Not owner'') \<and>
      transferWaste c wid t x = Inl (Require ''Not owner'') \<and>
      transact \<lparr>tx_sender = c, tx_time = now, tx_call = UpdateStatus wid st\<rparr> x = x \<and>
      transact \<lparr>tx_sender = c, tx_time = now, tx_call = TransferWaste wid t\<rparr> x = x"
    if "record_exists x wid" "c \<noteq> owner (wastes x wid)" for c st t x
    using that by (auto simp: record_exists_def updateStatus_def transferWaste_def transact_def)
  have after: "record_exists s' wid \<and> owner (wastes s' wid) = B"
    if "record_exists s wid" "transferWaste callerA wid B s = Inr s'"
    using that transferWaste_Inr [of callerA wid B s s'] by (simp add: record_exists_def)
  show ?thesis
    using rejected [of s caller status' to] rejected [of s' callerA status' to] after
    by auto
qed

theorem non_owner_is_rejected_witness:
  "record_exists one_record 1 \<and> 11 \<noteq> owner (wastes one_record 1) \<and>
   updateStatus 11 1 ''Collected'' one_record = Inl (Require ''Not owner'') \<and>
   transferWaste 11 1 12 one_record = Inl (Require ''Not owner'') \<and>
   (\<exists>s'. transferWaste 10 1 11 one_record = Inr s' \<and> (10 :: address) \<noteq> 11 \<and>
      owner (wastes s' 1) = 11 \<and>
      updateStatus 10 1 ''Collected'' s' = Inl (Require ''Not owner''))"
  using non_owner_is_rejected [of one_record 1 11 "''Collected''" 12 0 10 11
      "transact \<lparr>tx_sender = 10, tx_time = 0, tx_call = TransferWaste 1 11\<rparr> one_record"]
  by (simp add: one_record_def record_exists_def eval_defs)

lemma le_neq_succ:
  fixes c :: "'a::len word"
  shows "c \<noteq> - 1 \<Longrightarrow> k \<le> c \<Longrightarrow> k \<noteq> c + 1"
  using unat_succ [of c] by (auto simp: word_le_nat_alt)

lemma createWaste_Inr:
  assumes "createWaste m t ty s = Inr s'"
  shows "count s \<noteq> - 1"
    and "s' = s\<lparr>count := count s + 1,
               wastes := (wastes s)(count s + 1 := \<lparr>id' = count s + 1, wasteType = ty, status = ''Generated'',
                                         owner = m, timestamp = t\<rparr>),
               emitted := emitted s @ [WasteCreated (count s + 1) m]\<rparr>"
  using assms by (auto simp: createWaste_def Let_def split: if_splits)

lemma createWaste_keeps_existing:
  assumes "ids_ok s" and "record_exists s k" and "createWaste m t ty s = Inr s'"
  shows "wastes s' k = wastes s k"
proof -
  from assms(1,2) have "k \<le> count s"
    by (auto simp: ids_ok_def record_exists_def split: if_splits)
  then have "k \<noteq> count s + 1"
    using createWaste_Inr(1) [OF assms(3)] by (simp add: le_neq_succ)
  then show ?thesis
    by (simp add: createWaste_Inr(2) [OF assms(3)])
qed

lemma transact_fixed_fields:
  assumes "ids_ok s" and "record_exists s k"
  shows "record_exists (transact t s) k \<and>
         fixed_fields (wastes (transact t s) k) = fixed_fields (wastes s k)"
proof (cases "exec t s")
  case (Inl e)
  then show ?thesis using assms by (simp add: transact_def)
next
  case (Inr s')
  then have t: "transact t s = s'"
    by (simp add: transact_def)
  show ?thesis
  proof (cases "tx_call t")
    case (CreateWaste ty)
    with Inr have "createWaste (tx_sender t) (tx_time t) ty s = Inr s'"
      by simp
    from createWaste_keeps_existing [OF assms this] show ?thesis
      using assms(2) by (simp add: t record_exists_def)
  next
    case (UpdateStatus wid st)
    with Inr have "updateStatus (tx_sender t) wid st s = Inr s'"
      by simp
    from updateStatus_Inr(3) [OF this] show ?thesis
      using assms(2) by (auto simp: t record_exists_def fixed_fields_def)
  next
    case (TransferWaste wid to)
    with Inr have "transferWaste (tx_sender t) wid to s = Inr s'"
      by simp
    from transferWaste_Inr(2) [OF this] show ?thesis
      using assms(2) by (auto simp: t record_exists_def fixed_fields_def)
  qed
qed

lemma run_fixed_fields:
  "ids_ok s \<Longrightarrow> record_exists s k \<Longrightarrow>
     record_exists (run ts s) k \<and> fixed_fields (wastes (run ts s) k) = fixed_fields (wastes s k)"
proof (induction ts arbitrary: s)
  case Nil
  then show ?case by simp
next
  case (Cons t ts)
  from transact_fixed_fields [OF Cons.prems, of t]
  have ex: "record_exists (transact t s) k"
    and ff: "fixed_fields (wastes (transact t s) k) = fixed_fields (wastes s k)"
    by simp_all
  from Cons.IH [OF ids_ok_transact [OF Cons.prems(1)] ex] ff show ?case
    by simp
qed

text \<open>
  C9. A successful \<open>updateStatus\<close> changes the \<open>status\<close> field of the record
  under its id argument and nothing else in the mapping; a successful
  \<open>transferWaste\<close> changes the \<open>owner\<close> field of the record under its id
  argument and nothing else; neither moves the counter. In a reachable state a
  creation leaves every existing record as it is. Hence, for a record that
  exists in a reachable state, whatever transactions follow, the record
  still exists and its id, type and creation time are what they were.
\<close>

theorem mutations_touch_one_field_of_one_record:
  "(updateStatus m wid status' s = Inr s1 \<longrightarrow>
      wastes s1 = (wastes s)(wid := (wastes s wid)\<lparr>status := status'\<rparr>) \<and> count s1 = count s) \<and>
   (transferWaste m wid to s = Inr s2 \<longrightarrow>
      wastes s2 = (wastes s)(wid := (wastes s wid)\<lparr>owner := to\<rparr>) \<and> count s2 = count s) \<and>
   (record_exists (run ts deployed) k \<and> createWaste m now type' (run ts deployed) = Inr s3 \<longrightarrow>
      wastes s3 k = wastes (run ts deployed) k) \<and>
   (record_exists (run ts deployed) k \<longrightarrow>
      record_exists (run us (run ts deployed)) k \<and>
      id' (wastes (run us (run ts deployed)) k) = id' (wastes (run ts deployed) k) \<and>
      wasteType (wastes (run us (run ts deployed)) k) = wasteType (wastes (run ts deployed) k) \<and>
      timestamp (wastes (run us (run ts deployed)) k) = timestamp (wastes (run ts deployed) k))"
proof -
  have a: "updateStatus m wid status' s = Inr s1 \<longrightarrow>
      wastes s1 = (wastes s)(wid := (wastes s wid)\<lparr>status := status'\<rparr>) \<and> count s1 = count s"
    by (auto dest: updateStatus_Inr(3))
  have b: "transferWaste m wid to s = Inr s2 \<longrightarrow>
      wastes s2 = (wastes s)(wid := (wastes s wid)\<lparr>owner := to\<rparr>) \<and> count s2 = count s"
    by (auto dest: transferWaste_Inr(2))
  have c: "record_exists (run ts deployed) k \<and> createWaste m now type' (run ts deployed) = Inr s3 \<longrightarrow>
      wastes s3 k = wastes (run ts deployed) k"
    using createWaste_keeps_existing [OF ids_ok_reachable, of ts k m now type' s3] by simp
  have d: "record_exists (run ts deployed) k \<longrightarrow>
      record_exists (run us (run ts deployed)) k \<and>
      id' (wastes (run us (run ts deployed)) k) = id' (wastes (run ts deployed) k) \<and>
      wasteType (wastes (run us (run ts deployed)) k) = wasteType (wastes (run ts deployed) k) \<and>
      timestamp (wastes (run us (run ts deployed)) k) = timestamp (wastes (run ts deployed) k)"
    using run_fixed_fields [OF ids_ok_reachable, of ts k us] by (simp add: fixed_fields_def)
  from a b c d show ?thesis
    by blast
qed

theorem mutations_touch_one_field_of_one_record_witness:
  "(\<exists>s1. updateStatus 10 1 ''Collected'' (run first_tx deployed) = Inr s1 \<and>
      wastes s1 1 = \<lparr>id' = 1, wasteType = ''E-Waste'', status = ''Collected'', owner = 10, timestamp = 100\<rparr>) \<and>
   (\<exists>s2. transferWaste 10 1 11 (run first_tx deployed) = Inr s2 \<and>
      wastes s2 1 = \<lparr>id' = 1, wasteType = ''E-Waste'', status = ''Generated'', owner = 11, timestamp = 100\<rparr>) \<and>
   (\<exists>s3. createWaste 10 300 ''Glass'' (run first_tx deployed) = Inr s3 \<and>
      wastes s3 1 = wastes (run first_tx deployed) 1) \<and>
   record_exists (run first_tx deployed) 1 \<and>
   wastes (run later_txs (run first_tx deployed)) 1 =
     \<lparr>id' = 1, wasteType = ''E-Waste'', status = ''Recycled'', owner = 11, timestamp = 100\<rparr>"
  using mutations_touch_one_field_of_one_record [of 10 1 "''Collected''" "run first_tx deployed"
      "transact \<lparr>tx_sender = 10, tx_time = 0, tx_call = UpdateStatus 1 ''Collected''\<rparr> (run first_tx deployed)"
      11
      "transact \<lparr>tx_sender = 10, tx_time = 0, tx_call = TransferWaste 1 11\<rparr> (run first_tx deployed)"
      first_tx 1 300 "''Glass''"
      "transact \<lparr>tx_sender = 10, tx_time = 300, tx_call = CreateWaste ''Glass''\<rparr> (run first_tx deployed)"
      later_txs]
  by (simp add: first_tx_def later_txs_def record_exists_def eval_defs)

section \<open>Reading\<close>

lemma set_created_ids:
  "set (created_ids (emitted (run ts deployed))) =
     {k. k \<noteq> 0 \<and> k \<le> count (run ts deployed)}"
proof -
  let ?c = "count (run ts deployed)"
  have n: "n_created ts deployed = unat ?c"
    by (simp add: run_count deployed_def)
  have "set (map (of_nat :: nat \<Rightarrow> uint256) [1 ..< Suc (unat ?c)]) = {k. k \<noteq> 0 \<and> k \<le> ?c}"
  proof (intro set_eqI iffI)
    fix k :: uint256
    assume "k \<in> set (map of_nat [1 ..< Suc (unat ?c)])"
    then obtain i where i: "1 \<le> i" "i \<le> unat ?c" and k: "k = of_nat i"
      by auto
    have "unat ?c < 2 ^ LENGTH(256)"
      by (rule unsigned_less)
    with i have "unat k = i"
      by (simp add: k unat_of_nat)
    with i show "k \<in> {k. k \<noteq> 0 \<and> k \<le> ?c}"
      by (auto simp: word_le_nat_alt)
  next
    fix k :: uint256
    assume "k \<in> {k. k \<noteq> 0 \<and> k \<le> ?c}"
    then have "1 \<le> unat k" "unat k \<le> unat ?c"
      by (simp_all add: word_le_nat_alt unat_gt_0 Suc_le_eq)
    moreover have "k = of_nat (unat k)"
      by simp
    ultimately show "k \<in> set (map of_nat [1 ..< Suc (unat ?c)])"
      by (metis (no_types, lifting) atLeastLessThan_iff image_eqI le_imp_less_Suc set_map set_upt)
  qed
  then show ?thesis
    by (simp only: created_ids_reachable n)
qed

text \<open>
  C5. In every state reachable from the deployed contract, reading id 0 gives
  "not found": \<open>getWaste\<close> returns a struct whose id is the sentinel 0. The
  same holds for every id that was never assigned by a creation. An id that
  was assigned is not 0 and reads back a record carrying that id. So a record
  exists exactly under the assigned ids, and never under id 0.
\<close>

theorem get_not_found:
  "get 0 (run ts deployed) = None \<and>
   id' (getWaste 0 (run ts deployed)) = 0 \<and>
   (k \<notin> set (created_ids (emitted (run ts deployed))) \<longrightarrow>
      get k (run ts deployed) = None \<and> id' (getWaste k (run ts deployed)) = 0) \<and>
   (k \<in> set (created_ids (emitted (run ts deployed))) \<longrightarrow>
      k \<noteq> 0 \<and> id' (getWaste k (run ts deployed)) = k \<and>
      get k (run ts deployed) = Some (getWaste k (run ts deployed))) \<and>
   (record_exists (run ts deployed) k \<longleftrightarrow> k \<in> set (created_ids (emitted (run ts deployed)))) \<and>
   \<not> record_exists (run ts deployed) 0"
proof -
  let ?s = "run ts deployed"
  have ids: "id' (wastes ?s j) = (if j \<noteq> 0 \<and> j \<le> count ?s then j else 0)" for j
    using ids_ok_reachable [of ts] by (simp add: ids_ok_def)
  have mem: "j \<in> set (created_ids (emitted ?s)) \<longleftrightarrow> j \<noteq> 0 \<and> j \<le> count ?s" for j
    by (simp add: set_created_ids)
  show ?thesis
    by (simp add: get_def getWaste_def record_exists_def ids mem)
qed

theorem get_not_found_witness:
  "get 0 (run two_creates deployed) = None \<and>
   3 \<notin> set (created_ids (emitted (run two_creates deployed))) \<and>
   get 3 (run two_creates deployed) = None \<and>
   2 \<in> set (created_ids (emitted (run two_creates deployed))) \<and>
   get 2 (run two_creates deployed) =
     Some \<lparr>id' = 2, wasteType = ''E-Waste'', status = ''Generated'', owner = 11, timestamp = 101\<rparr>"
  using get_not_found [of two_creates 3] get_not_found [of two_creates 2]
  by (simp add: two_creates_def get_def getWaste_def record_exists_def eval_defs)

section \<open>The missing existence check of transferWaste\<close>

text \<open>
  C1. On the freshly deployed contract no record exists under id 5 or id 0.
  \<open>updateStatus\<close> on id 5 reverts with "Waste not found"; \<open>transferWaste\<close>
  on id 5 or id 0, called by the non-zero address 10, reverts with
  "Not owner": it has no existence check.
\<close>

theorem transferWaste_unknown_id_says_not_owner:
  "transferWaste 10 5 11 deployed = Inl (Require ''Not owner'') \<and>
   updateStatus 10 5 ''Collected'' deployed = Inl (Require ''Waste not found'') \<and>
   transferWaste 10 0 11 deployed = Inl (Require ''Not owner'') \<and>
   \<not> record_exists deployed 5 \<and> \<not> record_exists deployed 0"
  by (simp add: record_exists_def eval_defs)

section \<open>The stored ids and the unused keys\<close>

lemma zero_outside_deployed: "zero_outside deployed"
  by (simp add: zero_outside_def deployed_def)

lemma in_range_succ:
  fixes c :: "'a::len word"
  assumes "c \<noteq> - 1" and "\<not> (k \<noteq> 0 \<and> k \<le> c + 1)"
  shows "\<not> (k \<noteq> 0 \<and> k \<le> c)" and "k \<noteq> c + 1"
  using assms le_succ_iff [OF assms(1), of k] succ_neq_0 [OF assms(1)] by auto

lemma zero_outside_transact:
  assumes "zero_outside s" and "tx_sender t \<noteq> 0"
  shows "zero_outside (transact t s)"
proof (cases "exec t s")
  case (Inl e)
  then show ?thesis using assms by (simp add: transact_def)
next
  case (Inr s')
  then have t: "transact t s = s'"
    by (simp add: transact_def)
  show ?thesis
  proof (cases "tx_call t")
    case (CreateWaste ty)
    with Inr have c: "createWaste (tx_sender t) (tx_time t) ty s = Inr s'"
      by simp
    show ?thesis
      using assms(1) in_range_succ [OF createWaste_Inr(1) [OF c]]
      by (auto simp: t zero_outside_def createWaste_Inr(2) [OF c])
  next
    case (UpdateStatus wid st)
    with Inr have u: "updateStatus (tx_sender t) wid st s = Inr s'"
      by simp
    from updateStatus_Inr(1) [OF u] assms(1) have "wid \<noteq> 0 \<and> wid \<le> count s"
      by (auto simp: zero_outside_def record_exists_def zero_Waste_def)
    then show ?thesis
      using assms(1) by (auto simp: t zero_outside_def updateStatus_Inr(3) [OF u])
  next
    case (TransferWaste wid to)
    with Inr have u: "transferWaste (tx_sender t) wid to s = Inr s'"
      by simp
    from transferWaste_Inr(1) [OF u] assms have "wid \<noteq> 0 \<and> wid \<le> count s"
      by (auto simp: zero_outside_def zero_Waste_def)
    then show ?thesis
      using assms(1) by (auto simp: t zero_outside_def transferWaste_Inr(2) [OF u])
  qed
qed

lemma zero_outside_run:
  "zero_outside s \<Longrightarrow> \<forall>t \<in> set ts. tx_sender t \<noteq> 0 \<Longrightarrow> zero_outside (run ts s)"
  by (induction ts arbitrary: s) (simp_all add: zero_outside_transact)

lemma exists_iff_in_range:
  "record_exists (run ts deployed) k \<longleftrightarrow> k \<noteq> 0 \<and> k \<le> count (run ts deployed)"
  using ids_ok_reachable [of ts] by (simp add: ids_ok_def record_exists_def)

lemma in_range_unat:
  fixes c :: "'a::len word"
  shows "k \<noteq> 0 \<and> k \<le> c \<longleftrightarrow> 1 \<le> unat k \<and> unat k \<le> unat c"
  by (simp add: word_le_nat_alt unat_gt_0 Suc_le_eq)

text \<open>
  C10. In every state reached from the freshly deployed contract by a sequence
  of \<open>createWaste\<close>, \<open>updateStatus\<close> and \<open>transferWaste\<close> transactions, the
  record stored under key i has id i for every i with 1 \<le> i \<le> \<open>count\<close>, and
  the existence test \<open>wastes[id].id != 0\<close> of \<open>updateStatus\<close> holds exactly
  for the ids in 1..\<open>count\<close>. Every key outside 1..\<open>count\<close> holds the all-zero
  struct; this part is stated for transactions whose sender is not the zero
  address, as the sender of a transaction never is.
\<close>

theorem keys_hold_their_id_or_zero:
  "(1 \<le> unat i \<and> unat i \<le> unat (count (run ts deployed)) \<longrightarrow>
      id' (wastes (run ts deployed) i) = i) \<and>
   (id' (wastes (run ts deployed) wid) \<noteq> 0 \<longleftrightarrow>
      1 \<le> unat wid \<and> unat wid \<le> unat (count (run ts deployed))) \<and>
   (0 \<notin> tx_sender ` set ts \<and> \<not> (1 \<le> unat k \<and> unat k \<le> unat (count (run ts deployed))) \<longrightarrow>
      wastes (run ts deployed) k = zero_Waste)"
proof -
  let ?s = "run ts deployed"
  have ids: "id' (wastes ?s j) = (if j \<noteq> 0 \<and> j \<le> count ?s then j else 0)" for j
    using ids_ok_reachable [of ts] by (simp add: ids_ok_def)
  have a: "1 \<le> unat i \<and> unat i \<le> unat (count ?s) \<longrightarrow> id' (wastes ?s i) = i"
    using ids [of i] in_range_unat [of i "count ?s"] by simp
  have b: "id' (wastes ?s wid) \<noteq> 0 \<longleftrightarrow> 1 \<le> unat wid \<and> unat wid \<le> unat (count ?s)"
    using ids [of wid] in_range_unat [of wid "count ?s"] by auto
  have c: "wastes ?s k = zero_Waste"
    if "0 \<notin> tx_sender ` set ts" "\<not> (1 \<le> unat k \<and> unat k \<le> unat (count ?s))"
  proof -
    from that(1) have "\<forall>t \<in> set ts. tx_sender t \<noteq> 0"
      by (metis imageI)
    from zero_outside_run [OF zero_outside_deployed this]
    have "zero_outside ?s" .
    moreover from that(2) have "\<not> (k \<noteq> 0 \<and> k \<le> count ?s)"
      using in_range_unat [of k "count ?s"] by blast
    ultimately show ?thesis
      unfolding zero_outside_def by blast
  qed
  from a b c show ?thesis
    by blast
qed

theorem keys_hold_their_id_or_zero_witness:
  "map tx_sender mixed_txs = [10, 11, 10, 10, 10] \<and>
   count (run mixed_txs deployed) = 1 \<and>
   id' (wastes (run mixed_txs deployed) 1) = 1 \<and>
   id' (wastes (run mixed_txs deployed) 2) = 0 \<and>
   wastes (run mixed_txs deployed) 2 = zero_Waste \<and>
   wastes (run mixed_txs deployed) 0 = zero_Waste"
  using keys_hold_their_id_or_zero [of 1 mixed_txs 1 2]
    keys_hold_their_id_or_zero [of 1 mixed_txs 2 0]
  by (simp add: mixed_txs_def eval_defs)

text \<open>
  The assumption on the senders is needed in the model, whose address type
  contains the zero address: the owner stored under an unused key is the zero
  address, and \<open>transferWaste\<close> has no existence check, so a transfer sent
  from the zero address would be accepted for an unused key.
\<close>

lemma transfer_from_zero_address_writes_unused_key:
  "count (run zero_sender_transfer deployed) = 0 \<and>
   wastes (run zero_sender_transfer deployed) 5 =
     \<lparr>id' = 0, wasteType = [], status = [], owner = 11, timestamp = 0\<rparr>"
  by (simp add: zero_sender_transfer_def eval_defs)

section \<open>The auto-log and the client's write call\<close>

lemma autoLog_event_eq:
  "autoLog_event account e = (if account \<noteq> [] \<and> recognized e then [itemType_of e] else [])"
  by (auto simp: autoLog_event_def handleAutoCreateWaste_def recognized_def itemType_of_def
      split: option.splits)

lemma concat_autoLog_event:
  "concat (map (autoLog_event account) es) =
     (if account \<noteq> [] then map itemType_of (filter recognized es) else [])"
  by (induction es) (simp_all add: autoLog_event_eq)

lemma recognized_stamp [simp]: "recognized (e\<lparr>timestamp_ev := now\<rparr>) = recognized e"
  by (simp add: recognized_def)

lemma itemType_of_stamp [simp]: "itemType_of (e\<lparr>timestamp_ev := now\<rparr>) = itemType_of e"
  by (simp add: itemType_of_def)

lemma onmessage_autoLog: "autoLog (fst (onmessage account now data d)) = autoLog d"
  by (simp add: onmessage_def Let_def split: option.splits)

lemma onmessage_disabled: "\<not> autoLog d \<Longrightarrow> snd (onmessage account now data d) = []"
  by (simp add: onmessage_def Let_def split: option.splits)

lemma receive_all_disabled:
  "\<not> autoLog d \<Longrightarrow> \<not> autoLog (fst (receive_all ms d)) \<and> snd (receive_all ms d) = []"
proof (induction ms arbitrary: d)
  case Nil
  then show ?case by simp
next
  case (Cons m ms)
  obtain account now data where m: "m = (account, now, data)"
    by (cases m) auto
  let ?d = "fst (onmessage account now data d)"
  from Cons.prems have d': "\<not> autoLog ?d"
    by (simp add: onmessage_autoLog)
  from Cons.IH [OF d'] onmessage_disabled [OF Cons.prems, of account now data]
  show ?case
    by (simp add: m split_beta)
qed

text \<open>
  C6 (as amended). For a message of detection events the handler, as it is
  written and for the value of \<open>autoLog\<close> it reads, issues, when auto-log is
  enabled and an account is bound, one \<open>createWaste\<close> call for every event
  whose \<open>event_type\<close> is "waste_detected" or "waste_classified", in the order
  of the events and without dropping repeated events; otherwise it issues no
  call. For a single event a call is issued if and only if auto-log is
  enabled, an account is bound and the event type is one of the two. The
  call's argument is the event's \<open>class_name\<close> when it is present and not
  empty, and "Unknown Waste" when it is missing or empty. Whatever the state
  of auto-log and of the account, the events of the message are stamped and
  put in front of \<open>logs\<close>, of which the first 50 entries are kept, and nothing
  else of the component's state changes. In the component as it is shipped
  \<open>autoLog\<close> starts as false and is never set: over any sequence of messages
  from the initial state auto-log stays disabled and no call is issued.
\<close>

theorem autoLog_issues_one_create_per_recognized_event:
  "snd (onmessage account now (event_message es) d) =
     (if autoLog d \<and> account \<noteq> [] then map itemType_of (filter recognized es) else []) \<and>
   snd (onmessage account now (event_message [e]) d) =
     (if autoLog d \<and> account \<noteq> [] \<and> recognized e then [itemType_of e] else []) \<and>
   (class_name e = Some c \<and> c \<noteq> [] \<longrightarrow> itemType_of e = c) \<and>
   (class_name e = None \<or> class_name e = Some [] \<longrightarrow> itemType_of e = ''Unknown Waste'') \<and>
   fst (onmessage account now (event_message es) d) =
     d\<lparr>logs := take 50 (map (\<lambda>e. e\<lparr>timestamp_ev := now\<rparr>) es @ logs d)\<rparr> \<and>
   autoLog (fst (onmessage account now data d)) = autoLog d \<and>
   autoLog Dashboard_initial = False \<and>
   autoLog (fst (receive_all ms Dashboard_initial)) = False \<and>
   snd (receive_all ms Dashboard_initial) = []"
proof -
  have stamp: "map itemType_of (filter recognized (map (\<lambda>e. e\<lparr>timestamp_ev := now\<rparr>) xs)) =
      map itemType_of (filter recognized xs)" for xs
    by (induction xs) simp_all
  have calls: "snd (onmessage account now (event_message xs) d) =
      (if autoLog d \<and> account \<noteq> [] then map itemType_of (filter recognized xs) else [])" for xs
    unfolding onmessage_def event_message_def Let_def concat_autoLog_event stamp
    by simp
  have label: "(class_name e = Some c \<and> c \<noteq> [] \<longrightarrow> itemType_of e = c) \<and>
      (class_name e = None \<or> class_name e = Some [] \<longrightarrow> itemType_of e = ''Unknown Waste'')"
    by (auto simp: itemType_of_def)
  have log: "fst (onmessage account now (event_message es) d) =
      d\<lparr>logs := take 50 (map (\<lambda>e. e\<lparr>timestamp_ev := now\<rparr>) es @ logs d)\<rparr>"
    by (simp add: onmessage_def event_message_def Let_def)
  have init: "\<not> autoLog Dashboard_initial"
    by (simp add: Dashboard_initial_def)
  show ?thesis
    using label log init receive_all_disabled [OF init, of ms]
    by (simp add: calls onmessage_autoLog)
qed

theorem autoLog_issues_one_create_per_recognized_event_witness:
  "snd (onmessage ''0xA1'' ''t1'' (event_message [bottle, bottle]) \<lparr>autoLog = True, logs = []\<rparr>) =
     [''Bottle'', ''Bottle''] \<and>
   snd (onmessage ''0xA1'' ''t1'' (event_message [bottle]) \<lparr>autoLog = True, logs = []\<rparr>) = [''Bottle''] \<and>
   snd (onmessage ''0xA1'' ''t1'' (event_message [bottle]) Dashboard_initial) = [] \<and>
   snd (onmessage [] ''t1'' (event_message [bottle]) \<lparr>autoLog = True, logs = []\<rparr>) = [] \<and>
   class_name bottle = Some ''Bottle'' \<and> ''Bottle'' \<noteq> [] \<and> itemType_of bottle = ''Bottle'' \<and>
   class_name (bottle\<lparr>class_name := None\<rparr>) = None \<and>
   itemType_of (bottle\<lparr>class_name := None\<rparr>) = ''Unknown Waste'' \<and>
   fst (onmessage ''0xA1'' ''t1'' (event_message [bottle]) Dashboard_initial) =
     \<lparr>autoLog = False, logs = [bottle\<lparr>timestamp_ev := ''t1''\<rparr>]\<rparr> \<and>
   receive_all [(''0xA1'', ''t1'', event_message [bottle]), (''0xA1'', ''t2'', event_message [bottle])]
       Dashboard_initial =
     (\<lparr>autoLog = False, logs = [bottle\<lparr>timestamp_ev := ''t2''\<rparr>, bottle\<lparr>timestamp_ev := ''t1''\<rparr>]\<rparr>, [])"
  using autoLog_issues_one_create_per_recognized_event [of "''0xA1''" "''t1''" "[bottle, bottle]"
      "\<lparr>autoLog = True, logs = []\<rparr>" bottle "''Bottle''" "event_message [bottle]"
      "[(''0xA1'', ''t1'', event_message [bottle]), (''0xA1'', ''t2'', event_message [bottle])]"]
    autoLog_issues_one_create_per_recognized_event [of "''0xA1''" "''t1''" "[bottle]"
      Dashboard_initial bottle "''Bottle''" "event_message [bottle]" "[]"]
    autoLog_issues_one_create_per_recognized_event [of "[]" "''t1''" "[bottle]"
      "\<lparr>autoLog = True, logs = []\<rparr>" "bottle\<lparr>class_name := None\<rparr>" "''Bottle''" "event_message [bottle]" "[]"]
  by (simp add: bottle_def recognized_def itemType_of_def Dashboard_initial_def onmessage_def
      event_message_def Let_def)

text \<open>
  In the initial state of the component, which is the state it is shipped in
  (auto-log disabled), and with no account bound, an event is not discarded
  without effect: it is stamped and put into \<open>logs\<close>. For the handler read
  with auto-log enabled and an account bound, a state the shipped component
  does not reach: an event of type "detected" or "classified" issues no
  call, and a recognized event without \<open>class_name\<close>, or with an empty one,
  issues a call with "Unknown Waste", not "Unknown".
\<close>

theorem autoLog_constants_counterexample:
  "fst (onmessage [] ''t1'' (event_message [bottle]) Dashboard_initial) =
     \<lparr>autoLog = False, logs = [bottle\<lparr>timestamp_ev := ''t1''\<rparr>]\<rparr> \<and>
   fst (onmessage [] ''t1'' (event_message [bottle]) Dashboard_initial) \<noteq> Dashboard_initial \<and>
   snd (onmessage ''0xA1'' ''t1''
          (event_message [\<lparr>event_type = Some ''detected'', class_name = Some ''Bottle'', timestamp_ev = ''t0''\<rparr>])
          \<lparr>autoLog = True, logs = []\<rparr>) = [] \<and>
   snd (onmessage ''0xA1'' ''t1''
          (event_message [\<lparr>event_type = Some ''classified'', class_name = Some ''Bottle'', timestamp_ev = ''t0''\<rparr>])
          \<lparr>autoLog = True, logs = []\<rparr>) = [] \<and>
   snd (onmessage ''0xA1'' ''t1''
          (event_message [\<lparr>event_type = Some ''waste_detected'', class_name = None, timestamp_ev = ''t0''\<rparr>])
          \<lparr>autoLog = True, logs = []\<rparr>) = [''Unknown Waste''] \<and>
   ''Unknown Waste'' \<noteq> ''Unknown'' \<and>
   snd (onmessage ''0xA1'' ''t1''
          (event_message [\<lparr>event_type = Some ''waste_detected'', class_name = Some [], timestamp_ev = ''t0''\<rparr>])
          \<lparr>autoLog = True, logs = []\<rparr>) = [''Unknown Waste'']"
  by (simp add: onmessage_def event_message_def autoLog_event_def handleAutoCreateWaste_def
      bottle_def Dashboard_initial_def)

text \<open>
  In the initial state of the context (no account, no contract handle)
  \<open>createWaste\<close> resolves to \<open>undefined\<close>: nothing is thrown and the store is
  as before.
\<close>

theorem createWaste_Web3_unbound_counterexample:
  "createWaste_Web3 Web3_initial 100 ''Plastic'' deployed = (Returned None, deployed) \<and>
   \<not> is_Thrown (fst (createWaste_Web3 Web3_initial 100 ''Plastic'' deployed))"
  by (simp add: createWaste_Web3_def Web3_initial_def)

text \<open>
  C7 (as amended). \<open>createWaste\<close>, the one mutating call the context offers,
  resolves to \<open>undefined\<close> without an error and without reaching the
  contract whenever no contract handle is bound; that is the case initially
  and after the wallet reports an empty account list, which also clears the
  account. \<open>handleAutoCreateWaste\<close> likewise issues nothing without an
  account. With a handle bound, the call is the transaction
  \<open>createWaste\<close> sent from the handle's signer.
\<close>

theorem createWaste_Web3_unbound_is_silent:
  "(contract ctx = None \<longrightarrow> createWaste_Web3 ctx now wasteType' s = (Returned None, s)) \<and>
   (contract ctx = Some signer \<longrightarrow>
      snd (createWaste_Web3 ctx now wasteType' s) =
        transact \<lparr>tx_sender = signer, tx_time = now, tx_call = CreateWaste wasteType'\<rparr> s) \<and>
   contract Web3_initial = None \<and> currentAccount Web3_initial = [] \<and>
   contract (handleAccountsChanged [] ctx) = None \<and>
   currentAccount (handleAccountsChanged [] ctx) = [] \<and>
   handleAutoCreateWaste [] wasteType' = []"
  by (auto simp: createWaste_Web3_def Web3_initial_def handleAccountsChanged_def
      handleAutoCreateWaste_def transact_def Let_def split: sum.splits)

theorem createWaste_Web3_unbound_is_silent_witness:
  "contract (handleAccountsChanged [] connected) = None \<and>
   createWaste_Web3 (handleAccountsChanged [] connected) 100 ''Plastic'' deployed = (Returned None, deployed) \<and>
   contract connected = Some 10 \<and>
   count (snd (createWaste_Web3 connected 100 ''Plastic'' deployed)) = 1"
  using createWaste_Web3_unbound_is_silent [of "handleAccountsChanged [] connected" 100 "''Plastic''" deployed 10]
    createWaste_Web3_unbound_is_silent [of connected 100 "''Plastic''" deployed 10]
  by (simp add: connected_def handleAccountsChanged_def eval_defs)

end
